theory Spec2Isabelle
  imports Main
begin

section \<open>JavaScript arrays and numbers, as far as the grids use them\<close>

text \<open>
  Coordinates, dimensions and store indexes are whole numbers and are modelled as \<open>int\<close>
  (the source's \<open>number\<close> is a double; fractional, infinite and NaN coordinates are outside
  the model). The value \<open>undefined\<close> is \<open>None\<close>: a value of type \<open>T | undefined\<close> is an
  \<open>'a option\<close>.

  An array is its element slots plus the properties written under keys that are no array
  index. A slot is a hole (never written) or holds a value, which may be \<open>undefined\<close>.
  An array index is a whole number from 0 up to \<open>2^32 - 2\<close>; the greatest length is
  \<open>2^32 - 1\<close>.
\<close>

datatype error = RangeError | TypeError

datatype 'a slot = Hole | Filled "'a option"

fun slot_value :: "'a slot \<Rightarrow> 'a option" where
  "slot_value Hole = None"
| "slot_value (Filled v) = v"

record 'a jsarray =
  elems :: "'a slot list"
  props :: "int \<rightharpoonup> 'a option"

definition max_length :: int where
  "max_length = 4294967295"

definition is_index :: "int \<Rightarrow> bool" where
  "is_index i = (0 \<le> i \<and> i < max_length)"

text \<open>\<open>new Array(n).fill(v)\<close>: a RangeError for an invalid length, else \<open>n\<close> slots holding \<open>v\<close>.\<close>

definition new_filled :: "int \<Rightarrow> 'a option \<Rightarrow> error + 'a jsarray" where
  "new_filled n v =
     (if n < 0 \<or> max_length < n then Inl RangeError
      else Inr \<lparr>elems = replicate (nat n) (Filled v), props = Map.empty\<rparr>)"

text \<open>\<open>a[i]\<close>: a hole, an index past the end and a missing property all read as \<open>undefined\<close>.\<close>

definition arr_read :: "'a jsarray \<Rightarrow> int \<Rightarrow> 'a option" where
  "arr_read a i =
     (if is_index i then
        (if nat i < length (elems a) then slot_value (elems a ! nat i) else None)
      else (case props a i of None \<Rightarrow> None | Some v \<Rightarrow> v))"

text \<open>
  \<open>a[i] = v\<close>: inside the array the slot is overwritten; at an index past the end the array
  grows, the slots in between being holes; under any other key a property is set.
\<close>

definition arr_write :: "'a jsarray \<Rightarrow> int \<Rightarrow> 'a option \<Rightarrow> 'a jsarray" where
  "arr_write a i v =
     (if is_index i then
        (if nat i < length (elems a) then a\<lparr>elems := (elems a)[nat i := Filled v]\<rparr>
         else a\<lparr>elems := elems a @ replicate (nat i - length (elems a)) Hole @ [Filled v]\<rparr>)
      else a\<lparr>props := (props a)(i \<mapsto> v)\<rparr>)"

text \<open>\<open>Array.prototype.filter\<close> skips holes and keeps the values the predicate accepts.\<close>

fun arr_filter :: "('a option \<Rightarrow> bool) \<Rightarrow> 'a slot list \<Rightarrow> 'a option list" where
  "arr_filter p [] = []"
| "arr_filter p (Hole # ss) = arr_filter p ss"
| "arr_filter p (Filled v # ss) = (if p v then v # arr_filter p ss else arr_filter p ss)"

text \<open>
  \<open>Array.prototype.findIndex\<close> visits every index from 0 (a hole as \<open>undefined\<close>) and
  returns the first one whose value the predicate accepts, or \<open>-1\<close>.
\<close>

fun findIndex_from :: "('a option \<Rightarrow> bool) \<Rightarrow> 'a slot list \<Rightarrow> int \<Rightarrow> int" where
  "findIndex_from p [] k = - 1"
| "findIndex_from p (s # ss) k = (if p (slot_value s) then k else findIndex_from p ss (k + 1))"

definition findIndex :: "('a option \<Rightarrow> bool) \<Rightarrow> 'a jsarray \<Rightarrow> int" where
  "findIndex p a = findIndex_from p (elems a) 0"

text \<open>
  A number is a whole number or NaN (doubles are exact on whole numbers below \<open>2^53\<close>;
  infinities and fractions are outside the model). \<open>v++\<close> converts \<open>v\<close> to a number first:
  \<open>undefined\<close> becomes NaN, and NaN plus one is NaN.
\<close>

datatype jsnum = Num int | NaN

fun js_incr :: "jsnum option \<Rightarrow> jsnum" where
  "js_incr None = NaN"
| "js_incr (Some NaN) = NaN"
| "js_incr (Some (Num n)) = Num (n + 1)"

text \<open>
  Modelled from the spec: \<open>range\<close> of \<open>./range\<close>, which is not among the sources. The
  rows are \<open>range(0, height - 1)\<close> and the spec has one row for each \<open>y\<close> in \<open>[0, height)\<close>,
  so \<open>range(lo, hi)\<close> is the ascending list of the whole numbers from \<open>lo\<close> to \<open>hi\<close>, both
  included.
\<close>

definition range_incl :: "int \<Rightarrow> int \<Rightarrow> int list" where
  "range_incl lo hi = [lo..hi]"

section \<open>Grid2D\<close>

text \<open>
  The fields of the class, the private ones included; \<open>#size\<close> is \<open>gsize\<close>, since \<open>size\<close>
  is a constant of HOL.
\<close>

type_synonym Point = "int \<times> int"

record 'a Grid2D =
  height :: int
  width :: int
  gsize :: int
  offset :: int
  data :: "'a jsarray"

definition Grid2D_new :: "int \<Rightarrow> int \<Rightarrow> 'a option \<Rightarrow> error + 'a Grid2D" where
  "Grid2D_new h w fillValue =
     (let off = max h w; sz = off * off in
      case new_filled sz fillValue of
        Inl e \<Rightarrow> Inl e
      | Inr d \<Rightarrow> Inr \<lparr>height = h, width = w, gsize = sz, offset = off, data = d\<rparr>)"

definition Grid2D_get :: "'a Grid2D \<Rightarrow> int \<Rightarrow> int \<Rightarrow> 'a option" where
  "Grid2D_get g x y =
     (if x < 0 \<or> x > width g - 1 then None
      else if y < 0 \<or> y > height g - 1 then None
      else arr_read (data g) (x + y * offset g))"

definition Grid2D_set :: "'a Grid2D \<Rightarrow> int \<Rightarrow> int \<Rightarrow> 'a option \<Rightarrow> 'a Grid2D" where
  "Grid2D_set g x y v =
     (if x < 0 \<or> x > width g - 1 then g
      else if y < 0 \<or> y > height g - 1 then g
      else g\<lparr>data := arr_write (data g) (x + y * offset g) v\<rparr>)"

text \<open>
  \<open>parse\<close>: the input is a list of rows. \<open>input[0].length\<close> on an empty input is a
  TypeError; a row shorter than the first reads as \<open>undefined\<close> past its end. The new grid
  is filled with \<open>undefined\<close>. The loops read \<open>input[y]\<close> only for \<open>y\<close> from 0 up to the
  number of rows minus 1.
\<close>

definition input_at :: "'a list list \<Rightarrow> int \<Rightarrow> int \<Rightarrow> 'a option" where
  "input_at input y x =
     (let row = input ! nat y in if nat x < length row then Some (row ! nat x) else None)"

function parse_row ::
  "'a Grid2D \<Rightarrow> 'a list list \<Rightarrow> int \<Rightarrow> int \<Rightarrow> int \<Rightarrow> 'a Grid2D" where
  "parse_row grid input y x xDim =
     (if x < xDim then parse_row (Grid2D_set grid x y (input_at input y x)) input y (x + 1) xDim
      else grid)"
  by pat_completeness auto
termination
  by (relation "measure (\<lambda>(grid, input, y, x, xDim). nat (xDim - x))") auto

function parse_rows ::
  "'a Grid2D \<Rightarrow> 'a list list \<Rightarrow> int \<Rightarrow> int \<Rightarrow> int \<Rightarrow> 'a Grid2D" where
  "parse_rows grid input y yDim xDim =
     (if y < yDim then parse_rows (parse_row grid input y 0 xDim) input (y + 1) yDim xDim
      else grid)"
  by pat_completeness auto
termination
  by (relation "measure (\<lambda>(grid, input, y, yDim, xDim). nat (yDim - y))") auto

declare parse_row.simps [simp del] parse_rows.simps [simp del]

definition Grid2D_parse :: "'a list list \<Rightarrow> error + 'a Grid2D" where
  "Grid2D_parse input =
     (case input of
        [] \<Rightarrow> Inl TypeError
      | row0 # _ \<Rightarrow>
          (let yDim = int (length input); xDim = int (length row0) in
           case Grid2D_new yDim xDim None of
             Inl e \<Rightarrow> Inl e
           | Inr grid \<Rightarrow> Inr (parse_rows grid input 0 yDim xDim)))"

text \<open>
  \<open>increment\<close> has no bounds check: it reads the slot at the computed index, adds one and
  writes the result back, wherever the index lies.
\<close>

definition Grid2D_increment :: "jsnum Grid2D \<Rightarrow> int \<Rightarrow> int \<Rightarrow> jsnum Grid2D" where
  "Grid2D_increment g x y =
     (let i = x + y * offset g in
      g\<lparr>data := arr_write (data g) i (Some (js_incr (arr_read (data g) i)))\<rparr>)"

definition slope :: "int \<Rightarrow> int \<Rightarrow> int" where
  "slope start stop = (if start = stop then 0 else (if start > stop then - 1 else 1))"

function incrementLine_loop ::
  "jsnum Grid2D \<Rightarrow> int \<Rightarrow> int \<Rightarrow> int \<Rightarrow> int \<Rightarrow> int \<Rightarrow> int \<Rightarrow> jsnum Grid2D" where
  "incrementLine_loop g x1 y1 dx dy len i =
     (if i \<le> len
      then incrementLine_loop (Grid2D_increment g (x1 + i * dx) (y1 + i * dy)) x1 y1 dx dy len (i + 1)
      else g)"
  by pat_completeness auto
termination
  by (relation "measure (\<lambda>(g, x1, y1, dx, dy, len, i). nat (len + 1 - i))") auto

declare incrementLine_loop.simps [simp del]

definition Grid2D_incrementLine ::
  "jsnum Grid2D \<Rightarrow> int \<Rightarrow> int \<Rightarrow> int \<Rightarrow> int \<Rightarrow> jsnum Grid2D" where
  "Grid2D_incrementLine g x1 y1 x2 y2 =
     (let dx = slope x1 x2;
          dy = slope y1 y2;
          len = max \<bar>x1 - x2\<bar> \<bar>y1 - y2\<bar>
      in incrementLine_loop g x1 y1 dx dy len 0)"

definition Grid2D_filter :: "('a option \<Rightarrow> bool) \<Rightarrow> 'a Grid2D \<Rightarrow> 'a option list" where
  "Grid2D_filter p g = arr_filter p (elems (data g))"

definition Grid2D_count :: "('a option \<Rightarrow> bool) \<Rightarrow> 'a Grid2D \<Rightarrow> nat" where
  "Grid2D_count p g = length (Grid2D_filter p g)"

text \<open>
  \<open>find\<close>: \<open>Math.floor(idx / offset)\<close> is \<open>idx div offset\<close> on whole numbers when the
  stride is not 0. With stride 0 (a grid of no cells) the quotient is not finite and the
  pair the source returns holds no whole numbers: the model returns \<open>None\<close> there.
\<close>

definition Grid2D_find :: "('a option \<Rightarrow> bool) \<Rightarrow> 'a Grid2D \<Rightarrow> Point option" where
  "Grid2D_find p g =
     (let idx = findIndex p (data g) in
      if offset g = 0 then None
      else (let y = idx div offset g; x = idx - y * offset g in Some (x, y)))"

text \<open>
  \<open>findAll\<close> runs over the indexes below \<open>#size\<close>. The body divides by the stride only
  when \<open>idx < #size\<close>, and \<open>#size\<close> is the stride's square, so the stride is not 0 there.
\<close>

function findAll_loop ::
  "'a Grid2D \<Rightarrow> ('a option \<Rightarrow> bool) \<Rightarrow> int \<Rightarrow> Point list \<Rightarrow> Point list" where
  "findAll_loop g p idx res =
     (if idx < gsize g
      then (if p (arr_read (data g) idx)
            then (let y = idx div offset g; x = idx - y * offset g
                  in findAll_loop g p (idx + 1) (res @ [(x, y)]))
            else findAll_loop g p (idx + 1) res)
      else res)"
  by pat_completeness auto
termination
  by (relation "measure (\<lambda>(g, p, idx, res). nat (gsize g - idx))") auto

declare findAll_loop.simps [simp del]

definition Grid2D_findAll :: "('a option \<Rightarrow> bool) \<Rightarrow> 'a Grid2D \<Rightarrow> Point list" where
  "Grid2D_findAll p g = findAll_loop g p 0 []"

definition Grid2D_adjacent :: "'a Grid2D \<Rightarrow> int \<Rightarrow> int \<Rightarrow> Point list" where
  "Grid2D_adjacent g x y =
     (if x > 0 then [(x - 1, y)] else []) @
     (if x < width g - 1 then [(x + 1, y)] else []) @
     (if y > 0 then [(x, y - 1)] else []) @
     (if y < height g - 1 then [(x, y + 1)] else [])"

text \<open>
  The two diagonal views, with the cell reader \<open>this.get\<close> as the parameter \<open>cell\<close>, so that
  the same traversal can also be run on the coordinates themselves. The test
  \<open>diagIdx < numDiags / 2\<close> on whole numbers is \<open>2 * diagIdx < numDiags\<close>.
\<close>

definition diagonals_with :: "(int \<Rightarrow> int \<Rightarrow> 'b) \<Rightarrow> int \<Rightarrow> int \<Rightarrow> 'b list list" where
  "diagonals_with cell w h =
     (let numDiags = w + h - 2;
          maxDiagLength = min w h
      in map (\<lambda>diagIdx.
           let diagLength = min maxDiagLength
                 (if 2 * diagIdx < numDiags then diagIdx + 1 else numDiags - diagIdx + 1);
               startX = (if diagIdx < h then 0 else diagIdx - h + 1);
               startY = (if diagIdx < h then h - diagIdx - 1 else 0)
           in map (\<lambda>idx. cell (startX + idx) (startY + idx)) (range_incl 0 (diagLength - 1)))
         (range_incl 0 numDiags))"

definition antiDiagonals_with :: "(int \<Rightarrow> int \<Rightarrow> 'b) \<Rightarrow> int \<Rightarrow> int \<Rightarrow> 'b list list" where
  "antiDiagonals_with cell w h =
     (let numDiags = w + h - 2;
          maxDiagLength = min w h
      in map (\<lambda>diagIdx.
           let diagLength = min maxDiagLength
                 (if 2 * diagIdx < numDiags then diagIdx + 1 else numDiags - diagIdx + 1);
               startX = (if diagIdx < w then diagIdx else w - 1);
               startY = (if diagIdx < w then 0 else diagIdx - h + 1)
           in map (\<lambda>idx. cell (startX - idx) (startY + idx)) (range_incl 0 (diagLength - 1)))
         (range_incl 0 numDiags))"

definition Grid2D_diagonals :: "'a Grid2D \<Rightarrow> 'a option list list" where
  "Grid2D_diagonals g = diagonals_with (Grid2D_get g) (width g) (height g)"

definition Grid2D_antiDiagonals :: "'a Grid2D \<Rightarrow> 'a option list list" where
  "Grid2D_antiDiagonals g = antiDiagonals_with (Grid2D_get g) (width g) (height g)"

text \<open>
  The coordinates the diagonal, and the anti-diagonal, of index \<open>d\<close> reads: the inner
  \<open>map\<close> of the two views with the coordinates in place of the cell.
\<close>

definition diag_points :: "int \<Rightarrow> int \<Rightarrow> int \<Rightarrow> Point list" where
  "diag_points w h d =
     map (\<lambda>idx. ((if d < h then 0 else d - h + 1) + idx, (if d < h then h - d - 1 else 0) + idx))
       (range_incl 0
          (min (min w h) (if 2 * d < w + h - 2 then d + 1 else w + h - 2 - d + 1) - 1))"

definition anti_points :: "int \<Rightarrow> int \<Rightarrow> int \<Rightarrow> Point list" where
  "anti_points w h d =
     map (\<lambda>idx. ((if d < w then d else w - 1) - idx, (if d < w then 0 else d - h + 1) + idx))
       (range_incl 0
          (min (min w h) (if 2 * d < w + h - 2 then d + 1 else w + h - 2 - d + 1) - 1))"

section \<open>Grid3D\<close>

record Grid3D =
  height3 :: int
  width3 :: int
  depth3 :: int
  gsize3 :: int
  data3 :: "jsnum jsarray"
  yMod :: int
  zMod :: int

definition Grid3D_new :: "int \<Rightarrow> int \<Rightarrow> int \<Rightarrow> jsnum option \<Rightarrow> error + Grid3D" where
  "Grid3D_new h w d fillValue =
     (let sz = h * w * d in
      case new_filled sz fillValue of
        Inl e \<Rightarrow> Inl e
      | Inr a \<Rightarrow> Inr \<lparr>height3 = h, width3 = w, depth3 = d, gsize3 = sz, data3 = a,
                     yMod = h, zMod = h * w\<rparr>)"

definition Grid3D_get :: "Grid3D \<Rightarrow> int \<Rightarrow> int \<Rightarrow> int \<Rightarrow> jsnum option" where
  "Grid3D_get g x y z = arr_read (data3 g) (x + y * yMod g + z * zMod g)"

definition Grid3D_set :: "Grid3D \<Rightarrow> int \<Rightarrow> int \<Rightarrow> int \<Rightarrow> jsnum option \<Rightarrow> Grid3D" where
  "Grid3D_set g x y z v = g\<lparr>data3 := arr_write (data3 g) (x + y * yMod g + z * zMod g) v\<rparr>"

text \<open>
  The comma operator of JavaScript evaluates both operands and yields the value of the
  right one. \<open>increment\<close> indexes the store with the comma expression
  \<open>x + y * #yMod, z * #zMod\<close>.
\<close>

definition comma :: "'a \<Rightarrow> 'b \<Rightarrow> 'b" where
  "comma a b = b"

definition Grid3D_increment :: "Grid3D \<Rightarrow> int \<Rightarrow> int \<Rightarrow> int \<Rightarrow> Grid3D" where
  "Grid3D_increment g x y z =
     (let i = comma (x + y * yMod g) (z * zMod g) in
      g\<lparr>data3 := arr_write (data3 g) i (Some (js_incr (arr_read (data3 g) i)))\<rparr>)"

text \<open>
  The index that \<open>get\<close> and \<open>set\<close> of the cuboid grid compute, under a name, and the
  test for a coordinate inside the cuboid.
\<close>

definition linear_address :: "Grid3D \<Rightarrow> int \<Rightarrow> int \<Rightarrow> int \<Rightarrow> int" where
  "linear_address g x y z = x + y * yMod g + z * zMod g"

definition in_box :: "Grid3D \<Rightarrow> int \<Rightarrow> int \<Rightarrow> int \<Rightarrow> bool" where
  "in_box g x y z =
     (0 \<le> x \<and> x < width3 g \<and> 0 \<le> y \<and> y < height3 g \<and> 0 \<le> z \<and> z < depth3 g)"

section \<open>Well-formed grids and the grids of the examples\<close>

text \<open>
  The state every grid is in after its constructor and after any of its operations: the
  stride is the greater dimension, the size its square, and the store has at least that
  many slots (an unchecked write past the end can only make it longer).
\<close>

definition Grid2D_inv :: "'a Grid2D \<Rightarrow> bool" where
  "Grid2D_inv g =
     (offset g = max (height g) (width g) \<and> gsize g = offset g * offset g \<and>
      gsize g \<le> int (length (elems (data g))) \<and> int (length (elems (data g))) \<le> max_length)"

text \<open>The same for the cuboid grid: the multipliers and the size are the constructor's.\<close>

definition Grid3D_inv :: "Grid3D \<Rightarrow> bool" where
  "Grid3D_inv g =
     (yMod g = height3 g \<and> zMod g = height3 g * width3 g \<and>
      gsize3 g = height3 g * width3 g * depth3 g \<and>
      gsize3 g \<le> int (length (elems (data3 g))) \<and> int (length (elems (data3 g))) \<le> max_length)"

definition grid23 :: "int Grid2D" where
  "grid23 = \<lparr>height = 2, width = 3, gsize = 9, offset = 3,
     data = \<lparr>elems = replicate 9 (Filled (Some 0)), props = Map.empty\<rparr>\<rparr>"

definition grid11 :: "int Grid2D" where
  "grid11 = \<lparr>height = 1, width = 1, gsize = 1, offset = 1,
     data = \<lparr>elems = [Filled (Some 0)], props = Map.empty\<rparr>\<rparr>"

definition grid33 :: "int Grid2D" where
  "grid33 = \<lparr>height = 3, width = 3, gsize = 9, offset = 3,
     data = \<lparr>elems = replicate 9 (Filled (Some 0)), props = Map.empty\<rparr>\<rparr>"

definition grid222 :: Grid3D where
  "grid222 = \<lparr>height3 = 2, width3 = 2, depth3 = 2, gsize3 = 8,
     data3 = \<lparr>elems = replicate 8 (Filled (Some (Num 0))), props = Map.empty\<rparr>,
     yMod = 2, zMod = 4\<rparr>"

definition grid231 :: Grid3D where
  "grid231 = \<lparr>height3 = 2, width3 = 3, depth3 = 1, gsize3 = 6,
     data3 = \<lparr>elems = replicate 6 (Filled (Some (Num 0))), props = Map.empty\<rparr>,
     yMod = 2, zMod = 6\<rparr>"

definition grid121 :: Grid3D where
  "grid121 = \<lparr>height3 = 1, width3 = 2, depth3 = 1, gsize3 = 2,
     data3 = \<lparr>elems = replicate 2 (Filled (Some (Num 0))), props = Map.empty\<rparr>,
     yMod = 1, zMod = 2\<rparr>"

definition grid41 :: "jsnum Grid2D" where
  "grid41 = \<lparr>height = 4, width = 1, gsize = 16, offset = 4,
     data = \<lparr>elems = replicate 16 (Filled (Some (Num 0))), props = Map.empty\<rparr>\<rparr>"

definition grid14 :: "jsnum Grid2D" where
  "grid14 = \<lparr>height = 1, width = 4, gsize = 16, offset = 4,
     data = \<lparr>elems = replicate 16 (Filled (Some (Num 0))), props = Map.empty\<rparr>\<rparr>"

definition grid12 :: "int Grid2D" where
  "grid12 = \<lparr>height = 1, width = 2, gsize = 4, offset = 2,
     data = \<lparr>elems = [Filled (Some 0), Filled (Some 0), Filled (Some 0), Filled (Some 0)],
             props = Map.empty\<rparr>\<rparr>"

definition grid12_ones :: "int Grid2D" where
  "grid12_ones = Grid2D_set (Grid2D_set grid12 0 0 (Some 1)) 1 0 (Some 1)"

definition grid32 :: "int Grid2D" where
  "grid32 = \<lparr>height = 3, width = 2, gsize = 9, offset = 3,
     data = \<lparr>elems = [Filled (Some 1), Filled (Some 2), Filled None,
                      Filled (Some 3), Filled (Some 4), Filled None,
                      Filled (Some 5), Filled (Some 6), Filled None],
             props = Map.empty\<rparr>\<rparr>"

section \<open>Addressing\<close>

lemma arr_read_write:
  "arr_read (arr_write a i v) j = (if j = i then v else arr_read a j)"
proof (cases "is_index i")
  case False
  then show ?thesis by (auto simp: arr_read_def arr_write_def)
next
  case True
  then have i0: "0 \<le> i" by (simp add: is_index_def)
  show ?thesis
  proof (cases "nat i < length (elems a)")
    case True
    with \<open>is_index i\<close> i0 show ?thesis
      by (auto simp: arr_read_def arr_write_def is_index_def nth_list_update)
  next
    case False
    with \<open>is_index i\<close> i0 show ?thesis
      by (auto simp: arr_read_def arr_write_def is_index_def nth_append nth_Cons'
          split: if_splits)
  qed
qed

lemma cell_index_bounds:
  fixes x y off :: int
  assumes "0 \<le> x" "x < off" "0 \<le> y" "y < off"
  shows "0 \<le> x + y * off" and "x + y * off < off * off"
proof -
  have "0 \<le> y * off" using assms by simp
  then show "0 \<le> x + y * off" using assms by simp
  have "y * off \<le> (off - 1) * off"
    using assms by (intro mult_right_mono) simp_all
  then show "x + y * off < off * off"
    using assms by (simp add: algebra_simps)
qed

lemma cell_index_inj:
  fixes x y x' y' off :: int
  assumes "0 \<le> x" "x < off" "0 \<le> x'" "x' < off" "x + y * off = x' + y' * off"
  shows "x = x' \<and> y = y'"
proof -
  have "(x + y * off) mod off = (x' + y' * off) mod off"
    by (simp only: assms(5))
  moreover have "(x + y * off) mod off = x" "(x' + y' * off) mod off = x'"
    using assms(1-4) by simp_all
  ultimately have xx: "x = x'" by simp
  have "off \<noteq> 0" using assms(1,2) by simp
  moreover have "y * off = y' * off" using assms(5) xx by simp
  ultimately have "y = y'" by simp
  with xx show ?thesis by simp
qed

lemma cell_index_decode:
  fixes x y off :: int
  assumes "0 \<le> x" "x < off"
  shows "(x + y * off) mod off = x" and "(x + y * off) div off = y"
  using assms by simp_all

lemma Grid2D_new_inv:
  assumes "Grid2D_new h w fillValue = Inr g"
  shows "Grid2D_inv g"
  using assms
  by (auto simp: Grid2D_new_def new_filled_def Grid2D_inv_def Let_def split: if_splits)

lemma Grid2D_invD:
  assumes "Grid2D_inv g"
  shows "width g \<le> offset g" and "height g \<le> offset g"
    and "offset g * offset g \<le> int (length (elems (data g)))"
    and "int (length (elems (data g))) \<le> max_length"
proof -
  have o: "offset g = max (height g) (width g)"
    and s: "gsize g = offset g * offset g"
    and l: "gsize g \<le> int (length (elems (data g)))"
    and m: "int (length (elems (data g))) \<le> max_length"
    using assms unfolding Grid2D_inv_def by blast+
  show "width g \<le> offset g" "height g \<le> offset g" unfolding o by simp_all
  show "offset g * offset g \<le> int (length (elems (data g)))" using s l by simp
  show "int (length (elems (data g))) \<le> max_length" by (rule m)
qed

lemma Grid2D_cell_is_index:
  assumes "Grid2D_inv g" "0 \<le> x" "x < width g" "0 \<le> y" "y < height g"
  shows "is_index (x + y * offset g)"
    and "nat (x + y * offset g) < length (elems (data g))"
proof -
  note d = Grid2D_invD[OF assms(1)]
  have b: "x < offset g" "y < offset g"
    using assms(3,5) d(1,2) by simp_all
  have lo: "0 \<le> x + y * offset g" and hi: "x + y * offset g < offset g * offset g"
    using cell_index_bounds[OF assms(2) b(1) assms(4) b(2)] by simp_all
  from hi d(3) have lt: "x + y * offset g < int (length (elems (data g)))" by simp
  with lo show "nat (x + y * offset g) < length (elems (data g))" by simp
  from lt lo d(4) show "is_index (x + y * offset g)" by (simp add: is_index_def)
qed

lemma Grid2D_set_inv:
  assumes "Grid2D_inv g"
  shows "Grid2D_inv (Grid2D_set g x y v)"
proof (cases "0 \<le> x \<and> x < width g \<and> 0 \<le> y \<and> y < height g")
  case True
  let ?g' = "Grid2D_set g x y v"
  have "is_index (x + y * offset g)" "nat (x + y * offset g) < length (elems (data g))"
    using Grid2D_cell_is_index[OF assms] True by simp_all
  then have "?g' =
      g\<lparr>data := (data g)\<lparr>elems := (elems (data g))[nat (x + y * offset g) := Filled v]\<rparr>\<rparr>"
    using True by (simp add: Grid2D_set_def arr_write_def)
  then have e: "height ?g' = height g" "width ?g' = width g" "offset ?g' = offset g"
    "gsize ?g' = gsize g" "length (elems (data ?g')) = length (elems (data g))"
    by simp_all
  show ?thesis
    using assms unfolding Grid2D_inv_def e .
next
  case False
  then have "Grid2D_set g x y v = g" by (auto simp: Grid2D_set_def)
  then show ?thesis using assms by simp
qed

text \<open>
  The unchecked writes and \<open>parse\<close> keep a grid well-formed too: a write never shortens
  the store.
\<close>

lemma arr_write_length:
  assumes "int (length (elems a)) \<le> max_length"
  shows "length (elems a) \<le> length (elems (arr_write a i v))"
    and "int (length (elems (arr_write a i v))) \<le> max_length"
  using assms by (auto simp: arr_write_def is_index_def)

lemma Grid2D_increment_inv:
  assumes "Grid2D_inv g"
  shows "Grid2D_inv (Grid2D_increment g x y)"
proof -
  let ?g' = "Grid2D_increment g x y"
  obtain v where e: "?g' = g\<lparr>data := arr_write (data g) (x + y * offset g) v\<rparr>"
    by (simp add: Grid2D_increment_def Let_def)
  have m: "int (length (elems (data g))) \<le> max_length"
    and s: "gsize g \<le> int (length (elems (data g)))"
    using assms unfolding Grid2D_inv_def by blast+
  have "gsize g \<le> int (length (elems (data ?g')))"
    "int (length (elems (data ?g'))) \<le> max_length"
    using arr_write_length[OF m, of "x + y * offset g" v] s unfolding e by simp_all
  moreover have "height ?g' = height g" "width ?g' = width g" "offset ?g' = offset g"
    "gsize ?g' = gsize g"
    unfolding e by simp_all
  ultimately show ?thesis
    using assms unfolding Grid2D_inv_def by simp
qed

lemma incrementLine_loop_inv:
  "Grid2D_inv g \<Longrightarrow> Grid2D_inv (incrementLine_loop g x1 y1 dx dy len i)"
proof (induction g x1 y1 dx dy len i rule: incrementLine_loop.induct)
  case (1 g x1 y1 dx dy len i)
  show ?case
  proof (cases "i \<le> len")
    case True
    with 1 show ?thesis
      by (subst incrementLine_loop.simps) (simp add: Grid2D_increment_inv)
  next
    case False
    with 1 show ?thesis
      by (subst incrementLine_loop.simps) simp
  qed
qed

lemma Grid2D_incrementLine_inv:
  "Grid2D_inv g \<Longrightarrow> Grid2D_inv (Grid2D_incrementLine g x1 y1 x2 y2)"
  by (simp add: Grid2D_incrementLine_def Let_def incrementLine_loop_inv)

lemma parse_row_inv:
  "Grid2D_inv grid \<Longrightarrow> Grid2D_inv (parse_row grid input y x xDim)"
proof (induction grid input y x xDim rule: parse_row.induct)
  case (1 grid input y x xDim)
  show ?case
  proof (cases "x < xDim")
    case True
    with 1 show ?thesis
      by (subst parse_row.simps) (simp add: Grid2D_set_inv)
  next
    case False
    with 1 show ?thesis
      by (subst parse_row.simps) simp
  qed
qed

lemma parse_rows_inv:
  "Grid2D_inv grid \<Longrightarrow> Grid2D_inv (parse_rows grid input y yDim xDim)"
proof (induction grid input y yDim xDim rule: parse_rows.induct)
  case (1 grid input y yDim xDim)
  show ?case
  proof (cases "y < yDim")
    case True
    with 1 show ?thesis
      by (subst parse_rows.simps) (simp add: parse_row_inv)
  next
    case False
    with 1 show ?thesis
      by (subst parse_rows.simps) simp
  qed
qed

lemma Grid2D_parse_inv:
  assumes "Grid2D_parse input = Inr g"
  shows "Grid2D_inv g"
  using assms
  by (auto simp: Grid2D_parse_def Let_def parse_rows_inv Grid2D_new_inv
      split: list.splits sum.splits)

section \<open>Reading and writing cells\<close>

lemma Grid2D_get_in_range:
  assumes "Grid2D_inv g" "0 \<le> x" "x < width g" "0 \<le> y" "y < height g"
  shows "Grid2D_get g x y = slot_value (elems (data g) ! nat (x + y * offset g))"
  using Grid2D_cell_is_index[OF assms] assms
  by (simp add: Grid2D_get_def arr_read_def)

lemma Grid2D_set_in_range:
  assumes "Grid2D_inv g" "0 \<le> x" "x < width g" "0 \<le> y" "y < height g"
  shows "Grid2D_set g x y v =
    g\<lparr>data := (data g)\<lparr>elems := (elems (data g))[nat (x + y * offset g) := Filled v]\<rparr>\<rparr>"
  using Grid2D_cell_is_index[OF assms] assms
  by (simp add: Grid2D_set_def arr_write_def)

text \<open>
  C1: in a grid, after \<open>set(x, y, v)\<close> at an in-range coordinate, \<open>get(x, y)\<close> returns \<open>v\<close>
  and \<open>get\<close> at every other in-range coordinate returns what it returned before.
\<close>

theorem Grid2D_get_set:
  assumes "Grid2D_inv g" "0 \<le> x" "x < width g" "0 \<le> y" "y < height g"
  shows "Grid2D_get (Grid2D_set g x y v) x y = v \<and>
    (\<forall>x' y'. 0 \<le> x' \<and> x' < width g \<and> 0 \<le> y' \<and> y' < height g \<and> (x', y') \<noteq> (x, y) \<longrightarrow>
       Grid2D_get (Grid2D_set g x y v) x' y' = Grid2D_get g x' y')"
proof -
  let ?g' = "Grid2D_set g x y v"
  let ?i = "nat (x + y * offset g)"
  have inv': "Grid2D_inv ?g'" using assms(1) by (rule Grid2D_set_inv)
  have eq: "?g' = g\<lparr>data := (data g)\<lparr>elems := (elems (data g))[?i := Filled v]\<rparr>\<rparr>"
    by (rule Grid2D_set_in_range[OF assms])
  have dims: "width ?g' = width g" "height ?g' = height g" "offset ?g' = offset g"
    and el: "elems (data ?g') = (elems (data g))[?i := Filled v]"
    unfolding eq by simp_all
  have idx: "?i < length (elems (data g))"
    using Grid2D_cell_is_index[OF assms] by simp
  have "Grid2D_get ?g' x y = slot_value (elems (data ?g') ! ?i)"
    using Grid2D_get_in_range[OF inv', of x y] assms(2-5) unfolding dims by simp
  also have "\<dots> = v" unfolding el using idx by simp
  finally have same: "Grid2D_get ?g' x y = v" .
  have other: "Grid2D_get ?g' x' y' = Grid2D_get g x' y'"
    if r: "0 \<le> x'" "x' < width g" "0 \<le> y'" "y' < height g" and ne: "(x', y') \<noteq> (x, y)"
    for x' y'
  proof -
    let ?j = "nat (x' + y' * offset g)"
    have off: "x < offset g" "x' < offset g"
      using assms(3) r(2) Grid2D_invD(1)[OF assms(1)] by simp_all
    have "x + y * offset g \<noteq> x' + y' * offset g"
      using cell_index_inj[OF assms(2) off(1) r(1) off(2), of y y'] ne by blast
    moreover have "0 \<le> x + y * offset g" "0 \<le> x' + y' * offset g"
      using Grid2D_cell_is_index(1)[OF assms] Grid2D_cell_is_index(1)[OF assms(1) r]
      unfolding is_index_def by blast+
    ultimately have neq: "?i \<noteq> ?j" by linarith
    have "Grid2D_get ?g' x' y' = slot_value (elems (data ?g') ! ?j)"
      using Grid2D_get_in_range[OF inv', of x' y'] r unfolding dims by simp
    also have "\<dots> = slot_value (elems (data g) ! ?j)"
      unfolding el using neq by simp
    also have "\<dots> = Grid2D_get g x' y'"
      using Grid2D_get_in_range[OF assms(1) r] by simp
    finally show ?thesis .
  qed
  from same other show ?thesis by blast
qed

lemma grid23_new: "Grid2D_new 2 3 (Some 0) = Inr grid23"
  by (simp add: Grid2D_new_def new_filled_def max_length_def grid23_def)

lemma grid23_inv: "Grid2D_inv grid23"
  using grid23_new by (rule Grid2D_new_inv)

theorem Grid2D_get_set_witness:
  "Grid2D_inv grid23 \<and> (0::int) \<le> 1 \<and> 1 < width grid23 \<and> 1 < height grid23 \<and>
   Grid2D_get (Grid2D_set grid23 1 1 (Some 7)) 1 1 = Some 7 \<and>
   Grid2D_get (Grid2D_set grid23 1 1 (Some 7)) 2 0 = Grid2D_get grid23 2 0"
proof -
  have h: "(0::int) \<le> 1" "1 < width grid23" "1 < height grid23"
    by (simp_all add: grid23_def)
  have r: "(0::int) \<le> 2 \<and> 2 < width grid23 \<and> (0::int) \<le> 0 \<and> 0 < height grid23 \<and>
      ((2::int), (0::int)) \<noteq> (1, 1)"
    by (simp add: grid23_def)
  from Grid2D_get_set[OF grid23_inv h(1) h(2) h(1) h(3), of "Some 7"] r
  have "Grid2D_get (Grid2D_set grid23 1 1 (Some 7)) 1 1 = Some 7 \<and>
    Grid2D_get (Grid2D_set grid23 1 1 (Some 7)) 2 0 = Grid2D_get grid23 2 0"
    by blast
  with grid23_inv h show ?thesis by blast
qed

text \<open>
  C2: at a coordinate outside the rectangle, \<open>get\<close> returns \<open>undefined\<close> and \<open>set\<close> returns
  the grid as it was. Neither has a failing branch: the source has no \<open>throw\<close> on these
  paths, and the store is not touched.
\<close>

theorem Grid2D_out_of_range:
  assumes "x < 0 \<or> width g \<le> x \<or> y < 0 \<or> height g \<le> y"
  shows "Grid2D_get g x y = None \<and> Grid2D_set g x y v = g"
  using assms by (auto simp: Grid2D_get_def Grid2D_set_def)

theorem Grid2D_out_of_range_witness:
  "(3 < (0::int) \<or> width grid23 \<le> 3 \<or> 0 < (0::int) \<or> height grid23 \<le> 0) \<and>
   Grid2D_get grid23 3 0 = None \<and> Grid2D_set grid23 3 0 (Some 5) = grid23"
proof -
  have h: "3 < (0::int) \<or> width grid23 \<le> 3 \<or> 0 < (0::int) \<or> height grid23 \<le> 0"
    by (simp add: grid23_def)
  from Grid2D_out_of_range[OF h, of "Some 5"] h show ?thesis by blast
qed

section \<open>Adjacency\<close>

lemma grid11_new: "Grid2D_new 1 1 (Some 0) = Inr grid11"
  by (simp add: Grid2D_new_def new_filled_def max_length_def grid11_def)

lemma grid33_new: "Grid2D_new 3 3 (Some 0) = Inr grid33"
  by (simp add: Grid2D_new_def new_filled_def max_length_def grid33_def)

text \<open>
  C6, as stated, fails: the only cell of a 1 by 1 grid is a corner cell and has no
  neighbour.
\<close>

theorem Grid2D_adjacent_counterexample:
  "Grid2D_new 1 1 (Some 0) = Inr grid11 \<and> Grid2D_adjacent grid11 0 0 = [] \<and>
   length (Grid2D_adjacent grid11 0 0) \<noteq> 2"
  by (simp add: grid11_new) (simp add: Grid2D_adjacent_def grid11_def)

text \<open>
  C6, amended: at an in-range coordinate, \<open>adjacent\<close> returns the neighbours left, right,
  up, down, in this order, leaving out those outside the rectangle; an interior cell has
  all four, and a corner cell of a grid at least 2 wide and 2 high has exactly two.
\<close>

theorem Grid2D_adjacent_cells:
  assumes "0 \<le> x" "x < width g" "0 \<le> y" "y < height g"
  shows "(\<forall>(a, b) \<in> set (Grid2D_adjacent g x y). 0 \<le> a \<and> a < width g \<and> 0 \<le> b \<and> b < height g) \<and>
    Grid2D_adjacent g x y =
      filter (\<lambda>(a, b). 0 \<le> a \<and> a < width g \<and> 0 \<le> b \<and> b < height g)
        [(x - 1, y), (x + 1, y), (x, y - 1), (x, y + 1)] \<and>
    (0 < x \<and> x < width g - 1 \<and> 0 < y \<and> y < height g - 1 \<longrightarrow>
      Grid2D_adjacent g x y = [(x - 1, y), (x + 1, y), (x, y - 1), (x, y + 1)]) \<and>
    (2 \<le> width g \<and> 2 \<le> height g \<and> (x = 0 \<or> x = width g - 1) \<and> (y = 0 \<or> y = height g - 1) \<longrightarrow>
      length (Grid2D_adjacent g x y) = 2)"
  using assms by (auto simp: Grid2D_adjacent_def)

theorem Grid2D_adjacent_cells_witness:
  "(0::int) \<le> 1 \<and> 1 < width grid33 \<and> 1 < height grid33 \<and>
   Grid2D_adjacent grid33 1 1 = [(0, 1), (2, 1), (1, 0), (1, 2)] \<and>
   Grid2D_adjacent grid33 0 2 = [(1, 2), (0, 1)] \<and>
   length (Grid2D_adjacent grid33 0 2) = 2"
proof -
  have h: "(0::int) \<le> 1" "1 < width grid33" "1 < height grid33"
    "(0::int) \<le> 0" "0 < width grid33" "(0::int) \<le> 2" "2 < height grid33"
    by (simp_all add: grid33_def)
  have i: "(0::int) < 1 \<and> 1 < width grid33 - 1 \<and> (0::int) < 1 \<and> 1 < height grid33 - 1"
    and c: "2 \<le> width grid33 \<and> 2 \<le> height grid33 \<and> ((0::int) = 0 \<or> 0 = width grid33 - 1) \<and>
      ((2::int) = 0 \<or> 2 = height grid33 - 1)"
    by (simp_all add: grid33_def)
  have f: "filter (\<lambda>(a, b). 0 \<le> a \<and> a < width grid33 \<and> 0 \<le> b \<and> b < height grid33)
      [(0 - 1, 2), (0 + 1, 2), (0, 2 - 1), (0, 2 + 1)] = [(1, 2), (0, 1)]"
    by (simp add: grid33_def)
  from Grid2D_adjacent_cells[OF h(1) h(2) h(1) h(3)] i
  have a: "Grid2D_adjacent grid33 1 1 = [(0, 1), (2, 1), (1, 0), (1, 2)]"
    by simp
  from Grid2D_adjacent_cells[OF h(4) h(5) h(6) h(7)] c f
  have b: "Grid2D_adjacent grid33 0 2 = [(1, 2), (0, 1)]"
    "length (Grid2D_adjacent grid33 0 2) = 2"
    by simp_all
  from a b h show ?thesis by simp
qed

section \<open>Line painting\<close>

lemma grid41_new: "Grid2D_new 4 1 (Some (Num 0)) = Inr grid41"
  by (simp add: Grid2D_new_def new_filled_def max_length_def grid41_def)

lemma grid14_new: "Grid2D_new 1 4 (Some (Num 0)) = Inr grid14"
  by (simp add: Grid2D_new_def new_filled_def max_length_def grid14_def)

lemma replicate16: "replicate 16 x = [x, x, x, x, x, x, x, x, x, x, x, x, x, x, x, x]"
  by (simp add: numeral_eq_Suc)

lemmas line_eval = Grid2D_incrementLine_def slope_def incrementLine_loop.simps
  Grid2D_increment_def arr_read_def arr_write_def is_index_def max_length_def Let_def replicate16

lemma line41: "Grid2D_incrementLine grid41 0 0 0 3 =
  grid41\<lparr>data := \<lparr>elems =
    [Filled (Some (Num 1)), Filled (Some (Num 0)), Filled (Some (Num 0)), Filled (Some (Num 0)),
     Filled (Some (Num 1)), Filled (Some (Num 0)), Filled (Some (Num 0)), Filled (Some (Num 0)),
     Filled (Some (Num 1)), Filled (Some (Num 0)), Filled (Some (Num 0)), Filled (Some (Num 0)),
     Filled (Some (Num 1)), Filled (Some (Num 0)), Filled (Some (Num 0)), Filled (Some (Num 0))],
    props = Map.empty\<rparr>\<rparr>"
  by (simp add: line_eval grid41_def)

lemma line14: "Grid2D_incrementLine grid14 0 0 0 3 =
  grid14\<lparr>data := \<lparr>elems =
    [Filled (Some (Num 1)), Filled (Some (Num 0)), Filled (Some (Num 0)), Filled (Some (Num 0)),
     Filled (Some (Num 1)), Filled (Some (Num 0)), Filled (Some (Num 0)), Filled (Some (Num 0)),
     Filled (Some (Num 1)), Filled (Some (Num 0)), Filled (Some (Num 0)), Filled (Some (Num 0)),
     Filled (Some (Num 1)), Filled (Some (Num 0)), Filled (Some (Num 0)), Filled (Some (Num 0))],
    props = Map.empty\<rparr>\<rparr>"
  by (simp add: line_eval grid14_def)

text \<open>
  C7, as stated, fails, whichever dimension of the 4 by 1 grid is 4: the line from
  \<open>(0, 0)\<close> to \<open>(0, 3)\<close> keeps \<open>x = 0\<close> and runs along \<open>y\<close>, so the cell \<open>(1, 0)\<close> is not
  incremented. With width 4 and height 1 it still holds 0, and the slot of \<open>(0, 1)\<close>,
  which is outside that grid, is incremented; with width 1 and height 4 the coordinate
  \<open>(1, 0)\<close> is outside the grid.
\<close>

theorem incrementLine_counterexample:
  "Grid2D_new 1 4 (Some (Num 0)) = Inr grid14 \<and>
   Grid2D_get (Grid2D_incrementLine grid14 0 0 0 3) 1 0 = Some (Num 0) \<and>
   arr_read (data (Grid2D_incrementLine grid14 0 0 0 3)) (0 + 1 * offset grid14) = Some (Num 1) \<and>
   Grid2D_new 4 1 (Some (Num 0)) = Inr grid41 \<and>
   Grid2D_get (Grid2D_incrementLine grid41 0 0 0 3) 1 0 = None"
  by (simp add: grid14_new grid41_new line14 line41)
    (simp add: Grid2D_get_def arr_read_def is_index_def max_length_def grid14_def grid41_def)

text \<open>
  C7, amended: on a zero-filled grid of width 1 and height 4, \<open>incrementLine(0, 0, 0, 3)\<close>
  increments exactly the cells \<open>(0, 0)\<close>, \<open>(0, 1)\<close>, \<open>(0, 2)\<close>, \<open>(0, 3)\<close> by 1 each (the slots
  0, 4, 8 and 12 of the store) and changes no other slot.
\<close>

theorem incrementLine_column:
  "Grid2D_new 4 1 (Some (Num 0)) = Inr grid41 \<and>
   Grid2D_get grid41 0 0 = Some (Num 0) \<and> Grid2D_get grid41 0 1 = Some (Num 0) \<and>
   Grid2D_get grid41 0 2 = Some (Num 0) \<and> Grid2D_get grid41 0 3 = Some (Num 0) \<and>
   Grid2D_get (Grid2D_incrementLine grid41 0 0 0 3) 0 0 = Some (Num 1) \<and>
   Grid2D_get (Grid2D_incrementLine grid41 0 0 0 3) 0 1 = Some (Num 1) \<and>
   Grid2D_get (Grid2D_incrementLine grid41 0 0 0 3) 0 2 = Some (Num 1) \<and>
   Grid2D_get (Grid2D_incrementLine grid41 0 0 0 3) 0 3 = Some (Num 1) \<and>
   Grid2D_incrementLine grid41 0 0 0 3 =
     grid41\<lparr>data := \<lparr>elems =
       [Filled (Some (Num 1)), Filled (Some (Num 0)), Filled (Some (Num 0)), Filled (Some (Num 0)),
        Filled (Some (Num 1)), Filled (Some (Num 0)), Filled (Some (Num 0)), Filled (Some (Num 0)),
        Filled (Some (Num 1)), Filled (Some (Num 0)), Filled (Some (Num 0)), Filled (Some (Num 0)),
        Filled (Some (Num 1)), Filled (Some (Num 0)), Filled (Some (Num 0)), Filled (Some (Num 0))],
       props = Map.empty\<rparr>\<rparr>"
  by (simp add: grid41_new line41)
    (simp add: Grid2D_get_def arr_read_def is_index_def max_length_def grid41_def replicate16)

section \<open>Diagonals\<close>

lemma range_incl_length: "length (range_incl 0 n) = nat (n + 1)"
  by (simp add: range_incl_def)

lemma range_incl_nth: "0 \<le> d \<Longrightarrow> d \<le> n \<Longrightarrow> range_incl 0 n ! nat d = d"
  by (simp add: range_incl_def)

text \<open>
  C4, as stated, fails on the count: a grid of width 3 and height 2 has 4 diagonals, not
  \<open>width + height - 2 = 3\<close>.
\<close>

theorem Grid2D_diagonals_counterexample:
  "Grid2D_new 2 3 (Some 0) = Inr grid23 \<and>
   length (Grid2D_diagonals grid23) = 4 \<and> width grid23 + height grid23 - 2 = 3"
  by (simp add: grid23_new)
    (simp add: Grid2D_diagonals_def diagonals_with_def range_incl_def grid23_def)

text \<open>
  C4, amended: \<open>diagonals()\<close> returns exactly \<open>width + height - 1\<close> diagonals, one for each
  index \<open>d\<close> from 0 to \<open>numDiags = width + height - 2\<close>, both included. The diagonal \<open>d\<close>
  reads the cells \<open>(startX + i, startY + i)\<close> for \<open>i\<close> from 0 to its length minus 1, where
  the start is \<open>(0, height - d - 1)\<close> if \<open>d < height\<close> and \<open>(d - height + 1, 0)\<close> otherwise,
  and the length is \<open>min(maxLen, d < numDiags/2 ? d + 1 : numDiags - d + 1)\<close>, which ramps
  up, then down, capped at \<open>min(width, height)\<close>.
\<close>

theorem Grid2D_diagonals_shape:
  assumes "0 < width g" "0 < height g"
  shows "length (Grid2D_diagonals g) = nat (width g + height g - 1) \<and>
    (\<forall>d. 0 \<le> d \<and> d \<le> width g + height g - 2 \<longrightarrow>
      Grid2D_diagonals g ! nat d =
        map (\<lambda>i. Grid2D_get g ((if d < height g then 0 else d - height g + 1) + i)
                                ((if d < height g then height g - d - 1 else 0) + i))
          (range_incl 0
            (min (min (width g) (height g))
               (if 2 * d < width g + height g - 2 then d + 1
                else width g + height g - 2 - d + 1) - 1)) \<and>
      int (length (Grid2D_diagonals g ! nat d)) =
        min (min (width g) (height g)) (min (d + 1) (width g + height g - 1 - d)))"
proof -
  let ?n = "width g + height g - 2"
  have len: "length (Grid2D_diagonals g) = nat (width g + height g - 1)"
    by (simp add: Grid2D_diagonals_def diagonals_with_def range_incl_length Let_def)
  have nth: "Grid2D_diagonals g ! nat d =
        map (\<lambda>i. Grid2D_get g ((if d < height g then 0 else d - height g + 1) + i)
                                ((if d < height g then height g - d - 1 else 0) + i))
          (range_incl 0
            (min (min (width g) (height g))
               (if 2 * d < ?n then d + 1 else ?n - d + 1) - 1))"
    if d: "0 \<le> d" "d \<le> ?n" for d
  proof -
    have "nat d < length (range_incl 0 ?n)"
      using d by (simp add: range_incl_length)
    then show ?thesis
      using d by (simp add: Grid2D_diagonals_def diagonals_with_def Let_def range_incl_nth)
  qed
  have ln: "int (length (Grid2D_diagonals g ! nat d)) =
        min (min (width g) (height g)) (min (d + 1) (width g + height g - 1 - d))"
    if d: "0 \<le> d" "d \<le> ?n" for d
    unfolding nth[OF d] using d assms
    by (simp add: range_incl_length) linarith
  from len nth ln show ?thesis by blast
qed

theorem Grid2D_diagonals_shape_witness:
  "0 < width grid23 \<and> 0 < height grid23 \<and> length (Grid2D_diagonals grid23) = 4 \<and>
   Grid2D_diagonals grid23 ! 2 = [Grid2D_get grid23 1 0, Grid2D_get grid23 2 1] \<and>
   length (Grid2D_diagonals grid23 ! 2) = 2"
proof -
  have h: "0 < width grid23" "0 < height grid23"
    and w: "width grid23 = 3" "height grid23 = 2"
    by (simp_all add: grid23_def)
  have d: "(0::int) \<le> 2 \<and> 2 \<le> width grid23 + height grid23 - 2"
    by (simp add: w)
  note inst = Grid2D_diagonals_shape[OF h]
  from inst have a: "length (Grid2D_diagonals grid23) = 4"
    by (simp add: w)
  from inst d have "Grid2D_diagonals grid23 ! nat 2 =
      map (\<lambda>i. Grid2D_get grid23 ((if 2 < height grid23 then 0 else 2 - height grid23 + 1) + i)
                                ((if 2 < height grid23 then height grid23 - 2 - 1 else 0) + i))
        (range_incl 0
          (min (min (width grid23) (height grid23))
             (if 2 * 2 < width grid23 + height grid23 - 2 then 2 + 1
              else width grid23 + height grid23 - 2 - 2 + 1) - 1))"
    by blast
  then have b: "Grid2D_diagonals grid23 ! 2 = [Grid2D_get grid23 1 0, Grid2D_get grid23 2 1]"
    by (simp add: w range_incl_def upto_rec1)
  then have c: "length (Grid2D_diagonals grid23 ! 2) = 2"
    by simp
  from h a b c show ?thesis by blast
qed

section \<open>Covering the grid by diagonals\<close>

lemma diagonals_with_Pair:
  "diagonals_with Pair w h = map (diag_points w h) (range_incl 0 (w + h - 2))"
  by (simp add: diagonals_with_def diag_points_def Let_def)

lemma diag_points_in:
  assumes "0 < w" "0 < h" "0 \<le> d" "d \<le> w + h - 2" "(x, y) \<in> set (diag_points w h d)"
  shows "0 \<le> x \<and> x < w \<and> 0 \<le> y \<and> y < h \<and> x - y = d - h + 1"
proof -
  from assms(5) obtain i where i: "0 \<le> i"
    "i \<le> min (min w h) (if 2 * d < w + h - 2 then d + 1 else w + h - 2 - d + 1) - 1"
    "x = (if d < h then 0 else d - h + 1) + i" "y = (if d < h then h - d - 1 else 0) + i"
    by (auto simp: diag_points_def range_incl_def)
  show ?thesis
  proof (cases "d < h")
    case True
    with i assms(1-4) show ?thesis by (auto split: if_splits)
  next
    case False
    with i assms(1-4) show ?thesis by (auto split: if_splits)
  qed
qed

lemma diag_points_out:
  assumes "0 \<le> x" "x < w" "0 \<le> y" "y < h" "x - y = d - h + 1"
  shows "(x, y) \<in> set (diag_points w h d)"
proof -
  let ?i = "if d < h then x else y"
  have "0 \<le> ?i" using assms by simp
  moreover have "?i \<le> min (min w h) (if 2 * d < w + h - 2 then d + 1 else w + h - 2 - d + 1) - 1"
    using assms by (auto split: if_splits)
  moreover have "x = (if d < h then 0 else d - h + 1) + ?i"
    "y = (if d < h then h - d - 1 else 0) + ?i"
    using assms by (auto split: if_splits)
  ultimately have "\<exists>i \<in> {0..min (min w h) (if 2 * d < w + h - 2 then d + 1 else w + h - 2 - d + 1) - 1}.
      (x, y) = ((if d < h then 0 else d - h + 1) + i, (if d < h then h - d - 1 else 0) + i)"
    by (intro bexI[of _ ?i]) simp_all
  then show ?thesis
    by (simp add: diag_points_def range_incl_def image_iff)
qed

lemma diag_points_distinct: "distinct (diag_points w h d)"
  unfolding diag_points_def range_incl_def
  by (simp add: distinct_map inj_on_def)

lemma distinct_concat_map:
  assumes "distinct xs" "\<And>x. x \<in> set xs \<Longrightarrow> distinct (f x)"
    and "\<And>x y. x \<in> set xs \<Longrightarrow> y \<in> set xs \<Longrightarrow> x \<noteq> y \<Longrightarrow> set (f x) \<inter> set (f y) = {}"
  shows "distinct (concat (map f xs))"
  using assms by (induction xs) auto

lemma diagonals_points_set:
  assumes "0 < w" "0 < h"
  shows "set (concat (diagonals_with Pair w h)) = {0..<w} \<times> {0..<h}"
proof (intro set_eqI iffI)
  fix p :: Point
  obtain x y where p: "p = (x, y)" by (cases p)
  {
    assume "p \<in> set (concat (diagonals_with Pair w h))"
    then obtain d where "0 \<le> d" "d \<le> w + h - 2" "(x, y) \<in> set (diag_points w h d)"
      unfolding p by (auto simp: diagonals_with_Pair range_incl_def)
    from diag_points_in[OF assms this] show "p \<in> {0..<w} \<times> {0..<h}"
      unfolding p by simp
  }
  {
    assume "p \<in> {0..<w} \<times> {0..<h}"
    then have r: "0 \<le> x" "x < w" "0 \<le> y" "y < h" unfolding p by simp_all
    let ?d = "x - y + h - 1"
    have "(x, y) \<in> set (diag_points w h ?d)"
      using r by (intro diag_points_out) simp_all
    moreover have "?d \<in> set (range_incl 0 (w + h - 2))"
      using r by (simp add: range_incl_def)
    ultimately show "p \<in> set (concat (diagonals_with Pair w h))"
      unfolding p diagonals_with_Pair by auto
  }
qed

lemma diagonals_points_distinct:
  assumes "0 < w" "0 < h"
  shows "distinct (concat (diagonals_with Pair w h))"
  unfolding diagonals_with_Pair
proof (rule distinct_concat_map)
  show "distinct (range_incl 0 (w + h - 2))" by (simp add: range_incl_def)
  show "distinct (diag_points w h d)" for d by (rule diag_points_distinct)
  show "set (diag_points w h d) \<inter> set (diag_points w h d') = {}"
    if "d \<in> set (range_incl 0 (w + h - 2))" "d' \<in> set (range_incl 0 (w + h - 2))" "d \<noteq> d'"
    for d d'
  proof -
    have b: "0 \<le> d" "d \<le> w + h - 2" "0 \<le> d'" "d' \<le> w + h - 2"
      using that by (simp_all add: range_incl_def)
    have False if m: "(x, y) \<in> set (diag_points w h d)" "(x, y) \<in> set (diag_points w h d')" for x y
      using diag_points_in[OF assms b(1,2) m(1)] diag_points_in[OF assms b(3,4) m(2)] \<open>d \<noteq> d'\<close>
      by simp
    then show ?thesis by auto
  qed
qed

lemma diagonals_points_length:
  assumes "0 < w" "0 < h"
  shows "int (length (concat (diagonals_with Pair w h))) = w * h"
proof -
  have "length (concat (diagonals_with Pair w h)) = card (set (concat (diagonals_with Pair w h)))"
    by (rule distinct_card[OF diagonals_points_distinct[OF assms], symmetric])
  also have "\<dots> = card ({0..<w} \<times> {0..<h})"
    by (simp only: diagonals_points_set[OF assms])
  also have "\<dots> = nat w * nat h"
    by (simp add: card_cartesian_product)
  finally show ?thesis using assms by (simp add: nat_mult_distrib)
qed

lemma Grid2D_diagonals_points:
  "Grid2D_diagonals g =
     map (map (\<lambda>(x, y). Grid2D_get g x y)) (diagonals_with Pair (width g) (height g))"
  by (simp add: Grid2D_diagonals_def diagonals_with_def Let_def comp_def)

lemma Grid2D_diagonals_cover:
  assumes "0 < width g" "0 < height g"
  shows "concat (Grid2D_diagonals g) =
      map (\<lambda>(x, y). Grid2D_get g x y) (concat (diagonals_with Pair (width g) (height g))) \<and>
    distinct (concat (diagonals_with Pair (width g) (height g))) \<and>
    set (concat (diagonals_with Pair (width g) (height g))) = {0..<width g} \<times> {0..<height g} \<and>
    int (length (concat (Grid2D_diagonals g))) = width g * height g"
proof -
  have c: "concat (Grid2D_diagonals g) =
      map (\<lambda>(x, y). Grid2D_get g x y) (concat (diagonals_with Pair (width g) (height g)))"
    by (simp add: Grid2D_diagonals_points map_concat)
  then have "length (concat (Grid2D_diagonals g)) =
      length (concat (diagonals_with Pair (width g) (height g)))"
    by (simp only: length_map)
  with c diagonals_points_distinct[OF assms] diagonals_points_set[OF assms]
    diagonals_points_length[OF assms]
  show ?thesis by simp
qed

lemma antiDiagonals_with_Pair:
  "antiDiagonals_with Pair w h = map (anti_points w h) (range_incl 0 (w + h - 2))"
  by (simp add: antiDiagonals_with_def anti_points_def Let_def)

lemma anti_points_in:
  assumes "0 < n" "0 \<le> d" "d \<le> n + n - 2" "(x, y) \<in> set (anti_points n n d)"
  shows "0 \<le> x \<and> x < n \<and> 0 \<le> y \<and> y < n \<and> x + y = d"
proof -
  from assms(4) obtain i where i: "0 \<le> i"
    "i \<le> min (min n n) (if 2 * d < n + n - 2 then d + 1 else n + n - 2 - d + 1) - 1"
    "x = (if d < n then d else n - 1) - i" "y = (if d < n then 0 else d - n + 1) + i"
    by (auto simp: anti_points_def range_incl_def)
  show ?thesis
  proof (cases "d < n")
    case True
    with i assms(1-3) show ?thesis by (auto split: if_splits)
  next
    case False
    with i assms(1-3) show ?thesis by (auto split: if_splits)
  qed
qed

lemma anti_points_out:
  assumes "0 \<le> x" "x < n" "0 \<le> y" "y < n" "x + y = d"
  shows "(x, y) \<in> set (anti_points n n d)"
proof -
  let ?i = "if d < n then y else n - 1 - x"
  have "0 \<le> ?i" using assms by simp
  moreover have "?i \<le> min (min n n) (if 2 * d < n + n - 2 then d + 1 else n + n - 2 - d + 1) - 1"
    using assms by (auto split: if_splits)
  moreover have "x = (if d < n then d else n - 1) - ?i"
    "y = (if d < n then 0 else d - n + 1) + ?i"
    using assms by (auto split: if_splits)
  ultimately have "\<exists>i \<in> {0..min (min n n) (if 2 * d < n + n - 2 then d + 1 else n + n - 2 - d + 1) - 1}.
      (x, y) = ((if d < n then d else n - 1) - i, (if d < n then 0 else d - n + 1) + i)"
    by (intro bexI[of _ ?i]) simp_all
  then show ?thesis
    by (simp add: anti_points_def range_incl_def image_iff)
qed

lemma anti_points_distinct: "distinct (anti_points w h d)"
  unfolding anti_points_def range_incl_def
  by (simp add: distinct_map inj_on_def)

lemma antiDiagonals_points_set:
  assumes "0 < n"
  shows "set (concat (antiDiagonals_with Pair n n)) = {0..<n} \<times> {0..<n}"
proof (intro set_eqI iffI)
  fix p :: Point
  obtain x y where p: "p = (x, y)" by (cases p)
  {
    assume "p \<in> set (concat (antiDiagonals_with Pair n n))"
    then obtain d where "0 \<le> d" "d \<le> n + n - 2" "(x, y) \<in> set (anti_points n n d)"
      unfolding p by (auto simp: antiDiagonals_with_Pair range_incl_def)
    from anti_points_in[OF assms this] show "p \<in> {0..<n} \<times> {0..<n}"
      unfolding p by simp
  }
  {
    assume "p \<in> {0..<n} \<times> {0..<n}"
    then have r: "0 \<le> x" "x < n" "0 \<le> y" "y < n" unfolding p by simp_all
    have "(x, y) \<in> set (anti_points n n (x + y))"
      using r by (intro anti_points_out) simp_all
    moreover have "x + y \<in> set (range_incl 0 (n + n - 2))"
      using r by (simp add: range_incl_def)
    ultimately show "p \<in> set (concat (antiDiagonals_with Pair n n))"
      unfolding p antiDiagonals_with_Pair by auto
  }
qed

lemma antiDiagonals_points_distinct:
  assumes "0 < n"
  shows "distinct (concat (antiDiagonals_with Pair n n))"
  unfolding antiDiagonals_with_Pair
proof (rule distinct_concat_map)
  show "distinct (range_incl 0 (n + n - 2))" by (simp add: range_incl_def)
  show "distinct (anti_points n n d)" for d by (rule anti_points_distinct)
  show "set (anti_points n n d) \<inter> set (anti_points n n d') = {}"
    if "d \<in> set (range_incl 0 (n + n - 2))" "d' \<in> set (range_incl 0 (n + n - 2))" "d \<noteq> d'"
    for d d'
  proof -
    have b: "0 \<le> d" "d \<le> n + n - 2" "0 \<le> d'" "d' \<le> n + n - 2"
      using that by (simp_all add: range_incl_def)
    have False if m: "(x, y) \<in> set (anti_points n n d)" "(x, y) \<in> set (anti_points n n d')" for x y
      using anti_points_in[OF assms b(1,2) m(1)] anti_points_in[OF assms b(3,4) m(2)] \<open>d \<noteq> d'\<close>
      by simp
    then show ?thesis by auto
  qed
qed

lemma Grid2D_antiDiagonals_points:
  "Grid2D_antiDiagonals g =
     map (map (\<lambda>(x, y). Grid2D_get g x y)) (antiDiagonals_with Pair (width g) (height g))"
  by (simp add: Grid2D_antiDiagonals_def antiDiagonals_with_def Let_def comp_def)

lemma Grid2D_antiDiagonals_cover_square:
  assumes "0 < width g" "height g = width g"
  shows "concat (Grid2D_antiDiagonals g) =
      map (\<lambda>(x, y). Grid2D_get g x y) (concat (antiDiagonals_with Pair (width g) (height g))) \<and>
    distinct (concat (antiDiagonals_with Pair (width g) (height g))) \<and>
    set (concat (antiDiagonals_with Pair (width g) (height g))) = {0..<width g} \<times> {0..<height g} \<and>
    int (length (concat (Grid2D_antiDiagonals g))) = width g * height g"
proof -
  let ?ps = "concat (antiDiagonals_with Pair (width g) (width g))"
  have c: "concat (Grid2D_antiDiagonals g) = map (\<lambda>(x, y). Grid2D_get g x y) ?ps"
    by (simp add: Grid2D_antiDiagonals_points map_concat assms(2))
  have d: "distinct ?ps" and s: "set ?ps = {0..<width g} \<times> {0..<width g}"
    using antiDiagonals_points_distinct[OF assms(1)] antiDiagonals_points_set[OF assms(1)]
    by simp_all
  have "length ?ps = card (set ?ps)"
    by (rule distinct_card[OF d, symmetric])
  also have "\<dots> = nat (width g) * nat (width g)"
    unfolding s by (simp add: card_cartesian_product)
  finally have "int (length ?ps) = width g * width g"
    using assms(1) by (simp add: nat_mult_distrib)
  with c d s show ?thesis by (simp add: assms(2))
qed

lemma grid32_parse: "Grid2D_parse [[1, 2], [3, 4], [5, 6]] = Inr grid32"
  by (simp add: Grid2D_parse_def Grid2D_new_def new_filled_def max_length_def Let_def
      parse_rows.simps parse_row.simps input_at_def Grid2D_set_def arr_write_def is_index_def
      numeral_eq_Suc grid32_def)

text \<open>
  C5: the diagonals cover every cell exactly once (\<open>Grid2D_diagonals_cover\<close>), and so do
  the anti-diagonals of a square grid (\<open>Grid2D_antiDiagonals_cover_square\<close>). On a grid
  with \<open>width \<noteq> height\<close> the anti-diagonals do not: \<open>startY\<close> subtracts \<open>height\<close> where the
  test beside it compares with \<open>width\<close>. In the grid parsed from \<open>[[1,2],[3,4],[5,6]]\<close>
  (width 2, height 3) the anti-diagonals read the cells \<open>(1, 0)\<close> and \<open>(0, 1)\<close> twice and
  never the cells \<open>(0, 2)\<close> and \<open>(1, 2)\<close>, while the diagonals read each cell once.
\<close>

theorem Grid2D_antiDiagonals_repeat:
  "Grid2D_parse [[1, 2], [3, 4], [5, 6]] = Inr grid32 \<and>
   Grid2D_antiDiagonals grid32 = [[Some 1], [Some 2, Some 3], [Some 2, Some 3], [Some 4]] \<and>
   antiDiagonals_with Pair (width grid32) (height grid32) =
     [[(0, 0)], [(1, 0), (0, 1)], [(1, 0), (0, 1)], [(1, 1)]] \<and>
   Grid2D_diagonals grid32 = [[Some 5], [Some 3, Some 6], [Some 1, Some 4], [Some 2]]"
proof -
  have a: "Grid2D_antiDiagonals grid32 = [[Some 1], [Some 2, Some 3], [Some 2, Some 3], [Some 4]]"
    by (simp add: Grid2D_antiDiagonals_def antiDiagonals_with_def range_incl_def upto_rec1
        Let_def grid32_def Grid2D_get_def arr_read_def is_index_def max_length_def)
  have b: "antiDiagonals_with Pair (width grid32) (height grid32) =
      [[(0, 0)], [(1, 0), (0, 1)], [(1, 0), (0, 1)], [(1, 1)]]"
    by (simp add: antiDiagonals_with_def range_incl_def upto_rec1 Let_def grid32_def)
  have c: "Grid2D_diagonals grid32 = [[Some 5], [Some 3, Some 6], [Some 1, Some 4], [Some 2]]"
    by (simp add: Grid2D_diagonals_def diagonals_with_def range_incl_def upto_rec1
        Let_def grid32_def Grid2D_get_def arr_read_def is_index_def max_length_def)
  from grid32_parse a b c show ?thesis by blast
qed

section \<open>Searching\<close>

lemma findIndex_from_none:
  "\<forall>s \<in> set ss. \<not> p (slot_value s) \<Longrightarrow> findIndex_from p ss k = - 1"
  by (induction ss arbitrary: k) simp_all

text \<open>
  C9: when no slot of the store satisfies the predicate, \<open>find\<close> returns the point
  \<open>(max(width, height) - 1, -1)\<close>, the coordinates computed from index \<open>-1\<close>, and does not
  fail. The grid has a positive dimension, as the data model says.
\<close>

theorem Grid2D_find_no_match:
  assumes "Grid2D_inv g" "0 < height g \<or> 0 < width g"
    and "\<forall>s \<in> set (elems (data g)). \<not> p (slot_value s)"
  shows "Grid2D_find p g = Some (max (width g) (height g) - 1, - 1)"
proof -
  have o: "offset g = max (height g) (width g)"
    using assms(1) unfolding Grid2D_inv_def by blast
  with assms(2) have pos: "0 < offset g" by auto
  have idx: "findIndex p (data g) = - 1"
    unfolding findIndex_def using assms(3) by (rule findIndex_from_none)
  have d: "(- 1) div offset g = - 1"
    using pos by (simp add: div_eq_minus1)
  have "Grid2D_find p g = Some (- 1 - (- 1) * offset g, - 1)"
    using pos by (simp add: Grid2D_find_def idx d)
  then show ?thesis by (simp add: o max.commute)
qed

theorem Grid2D_find_no_match_witness:
  "Grid2D_inv grid23 \<and> (0 < height grid23 \<or> 0 < width grid23) \<and>
   Grid2D_find (\<lambda>v. v = Some 1) grid23 = Some (2, - 1)"
proof -
  have h: "0 < height grid23 \<or> 0 < width grid23"
    and n: "\<forall>s \<in> set (elems (data grid23)). \<not> slot_value s = Some 1"
    and e: "max (width grid23) (height grid23) - 1 = 2"
    by (simp_all add: grid23_def)
  from Grid2D_find_no_match[OF grid23_inv h, of "\<lambda>v. v = Some 1"] n e grid23_inv h
  show ?thesis by simp
qed

lemma grid12_new: "Grid2D_new 1 2 (Some 0) = Inr grid12"
  by (simp add: Grid2D_new_def new_filled_def max_length_def grid12_def numeral_eq_Suc)

lemma grid12_ones_eq:
  "grid12_ones = \<lparr>height = 1, width = 2, gsize = 4, offset = 2,
     data = \<lparr>elems = [Filled (Some 1), Filled (Some 1), Filled (Some 0), Filled (Some 0)],
             props = Map.empty\<rparr>\<rparr>"
  by (simp add: grid12_ones_def grid12_def Grid2D_set_def arr_write_def is_index_def max_length_def)

lemma grid12_ones_inv: "Grid2D_inv grid12_ones"
  unfolding grid12_ones_def
  by (intro Grid2D_set_inv Grid2D_new_inv[OF grid12_new])

lemma findAll_loop_eq:
  "findAll_loop g p idx res =
     res @ map (\<lambda>i. (i - i div offset g * offset g, i div offset g))
             (filter (\<lambda>i. p (arr_read (data g) i)) [idx..gsize g - 1])"
proof (induction g p idx res rule: findAll_loop.induct)
  case (1 g p idx res)
  show ?case
  proof (cases "idx < gsize g")
    case True
    then have u: "[idx..gsize g - 1] = idx # [idx + 1..gsize g - 1]"
      by (simp add: upto_rec1)
    show ?thesis
      using True 1 by (subst findAll_loop.simps) (simp add: u Let_def)
  next
    case False
    then show ?thesis
      by (subst findAll_loop.simps) simp
  qed
qed

lemma arr_filter_eq:
  "arr_filter p ss = filter p (map slot_value (filter (\<lambda>s. s \<noteq> Hole) ss))"
  by (induction p ss rule: arr_filter.induct) simp_all

lemma findIndex_from_first:
  "\<exists>s \<in> set ss. p (slot_value s) \<Longrightarrow>
   findIndex_from p ss k = k + int (length (takeWhile (\<lambda>s. \<not> p (slot_value s)) ss))"
proof (induction ss arbitrary: k)
  case Nil
  then show ?case by simp
next
  case (Cons a ss)
  show ?case
  proof (cases "p (slot_value a)")
    case True
    then show ?thesis by simp
  next
    case False
    with Cons.prems have "\<exists>s \<in> set ss. p (slot_value s)" by auto
    from Cons.IH[OF this, of "k + 1"] False show ?thesis by simp
  qed
qed

text \<open>
  C3, as stated, fails. In the grid of width 2 and height 1 below, filled with 0 and with
  1 set in both cells, no cell holds 0, yet \<open>filter\<close>, \<open>count\<close>, \<open>find\<close> and \<open>findAll\<close> with
  the predicate "is 0" return the two padding values and the padding coordinates
  \<open>(0, 1)\<close> and \<open>(1, 1)\<close>.
\<close>

theorem Grid2D_padding_counterexample:
  "Grid2D_new 1 2 (Some 0) = Inr grid12 \<and> width grid12_ones \<noteq> height grid12_ones \<and>
   Grid2D_get grid12_ones 0 0 = Some 1 \<and> Grid2D_get grid12_ones 1 0 = Some 1 \<and>
   Grid2D_filter (\<lambda>v. v = Some 0) grid12_ones = [Some 0, Some 0] \<and>
   Grid2D_count (\<lambda>v. v = Some 0) grid12_ones = 2 \<and>
   Grid2D_find (\<lambda>v. v = Some 0) grid12_ones = Some (0, 1) \<and>
   Grid2D_findAll (\<lambda>v. v = Some 0) grid12_ones = [(0, 1), (1, 1)]"
  by (simp add: grid12_new)
    (simp add: grid12_ones_eq Grid2D_get_def arr_read_def is_index_def max_length_def
      Grid2D_filter_def Grid2D_count_def Grid2D_find_def findIndex_def Grid2D_findAll_def
      findAll_loop.simps Let_def)


lemma Grid2D_set_padding:
  assumes "Grid2D_inv g" "\<not> (i mod offset g < width g \<and> i div offset g < height g)"
  shows "arr_read (data (Grid2D_set g x y v)) i = arr_read (data g) i"
proof (cases "0 \<le> x \<and> x < width g \<and> 0 \<le> y \<and> y < height g")
  case True
  then have "x < offset g" using Grid2D_invD(1)[OF assms(1)] by simp
  with True have "(x + y * offset g) mod offset g = x" "(x + y * offset g) div offset g = y"
    by (simp_all add: cell_index_decode)
  with True assms(2) have "i \<noteq> x + y * offset g" by auto
  moreover have "data (Grid2D_set g x y v) = arr_write (data g) (x + y * offset g) v"
    using True by (simp add: Grid2D_set_def)
  ultimately show ?thesis by (simp add: arr_read_write)
next
  case False
  then have "Grid2D_set g x y v = g" by (auto simp: Grid2D_set_def)
  then show ?thesis by simp
qed

text \<open>
  C3, amended: \<open>get\<close> and \<open>set\<close> reach only the width-by-height sub-rectangle: \<open>get\<close> at an
  in-range \<open>(x, y)\<close> reads the slot \<open>x + y * stride\<close>, whose coordinates are \<open>(x, y)\<close>, and
  \<open>set\<close> changes no padding slot. The searches scan the whole store, padding included:
  \<open>filter\<close> returns the value of every slot that satisfies the predicate (holes apart) and
  \<open>count\<close> their number, \<open>find\<close> returns the coordinates
  \<open>(i mod stride, i div stride)\<close> of the first such slot \<open>i\<close>, and \<open>findAll\<close> those of every
  such slot below \<open>stride * stride\<close>.
\<close>

theorem Grid2D_padding_observable:
  assumes "Grid2D_inv g" "0 < width g" "0 < height g"
  shows "(\<forall>x y. 0 \<le> x \<and> x < width g \<and> 0 \<le> y \<and> y < height g \<longrightarrow>
      Grid2D_get g x y = arr_read (data g) (x + y * offset g) \<and>
      0 \<le> x + y * offset g \<and> x + y * offset g < gsize g \<and>
      (x + y * offset g) mod offset g = x \<and> (x + y * offset g) div offset g = y) \<and>
    (\<forall>i x y v. \<not> (i mod offset g < width g \<and> i div offset g < height g) \<longrightarrow>
      arr_read (data (Grid2D_set g x y v)) i = arr_read (data g) i) \<and>
    Grid2D_filter p g = filter p (map slot_value (filter (\<lambda>s. s \<noteq> Hole) (elems (data g)))) \<and>
    Grid2D_count p g =
      length (filter p (map slot_value (filter (\<lambda>s. s \<noteq> Hole) (elems (data g))))) \<and>
    ((\<exists>s \<in> set (elems (data g)). p (slot_value s)) \<longrightarrow>
      Grid2D_find p g =
        Some (int (length (takeWhile (\<lambda>s. \<not> p (slot_value s)) (elems (data g)))) mod offset g,
              int (length (takeWhile (\<lambda>s. \<not> p (slot_value s)) (elems (data g)))) div offset g)) \<and>
    Grid2D_findAll p g =
      map (\<lambda>i. (i mod offset g, i div offset g))
        (filter (\<lambda>i. p (arr_read (data g) i)) [0..gsize g - 1])"
proof -
  note d = Grid2D_invD[OF assms(1)]
  have pos: "0 < offset g" using assms(2) d(1) by simp
  have sz: "gsize g = offset g * offset g"
    using assms(1) unfolding Grid2D_inv_def by blast
  have rd: "Grid2D_get g x y = arr_read (data g) (x + y * offset g) \<and>
      0 \<le> x + y * offset g \<and> x + y * offset g < gsize g \<and>
      (x + y * offset g) mod offset g = x \<and> (x + y * offset g) div offset g = y"
    if r: "0 \<le> x" "x < width g" "0 \<le> y" "y < height g" for x y
  proof -
    have b: "x < offset g" "y < offset g" using r d(1,2) by simp_all
    have "Grid2D_get g x y = arr_read (data g) (x + y * offset g)"
      using r by (simp add: Grid2D_get_def)
    moreover note cell_index_bounds[OF r(1) b(1) r(3) b(2)]
      cell_index_decode[OF r(1) b(1), of y]
    ultimately show ?thesis unfolding sz by blast
  qed
  have fl: "Grid2D_filter p g =
      filter p (map slot_value (filter (\<lambda>s. s \<noteq> Hole) (elems (data g))))"
    by (simp add: Grid2D_filter_def arr_filter_eq)
  have ct: "Grid2D_count p g =
      length (filter p (map slot_value (filter (\<lambda>s. s \<noteq> Hole) (elems (data g)))))"
    unfolding Grid2D_count_def fl ..
  have fd: "Grid2D_find p g =
        Some (int (length (takeWhile (\<lambda>s. \<not> p (slot_value s)) (elems (data g)))) mod offset g,
              int (length (takeWhile (\<lambda>s. \<not> p (slot_value s)) (elems (data g)))) div offset g)"
    if "\<exists>s \<in> set (elems (data g)). p (slot_value s)"
    using pos findIndex_from_first[OF that, of 0]
    by (simp add: Grid2D_find_def findIndex_def Let_def minus_div_mult_eq_mod)
  have fa: "Grid2D_findAll p g =
      map (\<lambda>i. (i mod offset g, i div offset g))
        (filter (\<lambda>i. p (arr_read (data g) i)) [0..gsize g - 1])"
    by (simp add: Grid2D_findAll_def findAll_loop_eq minus_div_mult_eq_mod)
  from rd Grid2D_set_padding[OF assms(1)] fl ct fd fa show ?thesis by blast
qed

theorem Grid2D_padding_observable_witness:
  "Grid2D_inv grid12_ones \<and> 0 < width grid12_ones \<and> 0 < height grid12_ones \<and>
   Grid2D_get grid12_ones 1 0 = arr_read (data grid12_ones) 1 \<and>
   arr_read (data (Grid2D_set grid12_ones 1 0 (Some 5))) 2 = arr_read (data grid12_ones) 2 \<and>
   Grid2D_find (\<lambda>v. v = Some 0) grid12_ones = Some (0, 1) \<and>
   Grid2D_findAll (\<lambda>v. v = Some 0) grid12_ones = [(0, 1), (1, 1)]"
proof -
  have h: "0 < width grid12_ones" "0 < height grid12_ones"
    by (simp_all add: grid12_ones_eq)
  have r: "(0::int) \<le> 1 \<and> 1 < width grid12_ones \<and> (0::int) \<le> 0 \<and> 0 < height grid12_ones"
    and o: "1 + 0 * offset grid12_ones = 1"
    and q: "\<not> (2 mod offset grid12_ones < width grid12_ones \<and>
           2 div offset grid12_ones < height grid12_ones)"
    and e: "\<exists>s \<in> set (elems (data grid12_ones)). slot_value s = Some 0"
    and t: "Some (int (length (takeWhile (\<lambda>s. \<not> slot_value s = Some 0) (elems (data grid12_ones))))
              mod offset grid12_ones,
            int (length (takeWhile (\<lambda>s. \<not> slot_value s = Some 0) (elems (data grid12_ones))))
              div offset grid12_ones) = Some (0, 1)"
    by (simp_all add: grid12_ones_eq arr_read_def is_index_def max_length_def)
  have u: "[0..gsize grid12_ones - 1] = [0, 1, 2, 3]"
    by (simp add: grid12_ones_eq upto_rec1)
  have m: "map (\<lambda>i. (i mod offset grid12_ones, i div offset grid12_ones))
        (filter (\<lambda>i. arr_read (data grid12_ones) i = Some 0) [0..gsize grid12_ones - 1]) =
        [(0, 1), (1, 1)]"
    unfolding u by (simp add: grid12_ones_eq arr_read_def is_index_def max_length_def)
  note inst = Grid2D_padding_observable[OF grid12_ones_inv h, of "\<lambda>v. v = Some 0"]
  from inst r o have a: "Grid2D_get grid12_ones 1 0 = arr_read (data grid12_ones) 1"
    by (metis (no_types, lifting))
  from inst q have b: "arr_read (data (Grid2D_set grid12_ones 1 0 (Some 5))) 2 =
      arr_read (data grid12_ones) 2"
    by blast
  from inst e t have c: "Grid2D_find (\<lambda>v. v = Some 0) grid12_ones = Some (0, 1)"
    by simp
  from inst m have f: "Grid2D_findAll (\<lambda>v. v = Some 0) grid12_ones = [(0, 1), (1, 1)]"
    by simp
  from grid12_ones_inv h a b c f show ?thesis by blast
qed

section \<open>Addressing in the cuboid grid\<close>

lemma Grid3D_new_inv:
  assumes "Grid3D_new h w d fillValue = Inr g"
  shows "Grid3D_inv g"
  using assms
  by (auto simp: Grid3D_new_def new_filled_def Grid3D_inv_def Let_def split: if_splits)

lemma Grid3D_write_inv:
  assumes "Grid3D_inv g"
  shows "Grid3D_inv (g\<lparr>data3 := arr_write (data3 g) i v\<rparr>)"
proof -
  have m: "int (length (elems (data3 g))) \<le> max_length"
    and s: "gsize3 g \<le> int (length (elems (data3 g)))"
    using assms unfolding Grid3D_inv_def by blast+
  from arr_write_length[OF m, of i v] s
  have "gsize3 g \<le> int (length (elems (arr_write (data3 g) i v)))"
    "int (length (elems (arr_write (data3 g) i v))) \<le> max_length"
    by simp_all
  then show ?thesis
    using assms unfolding Grid3D_inv_def by simp
qed

lemma Grid3D_set_inv: "Grid3D_inv g \<Longrightarrow> Grid3D_inv (Grid3D_set g x y z v)"
  unfolding Grid3D_set_def by (rule Grid3D_write_inv)

lemma Grid3D_increment_inv: "Grid3D_inv g \<Longrightarrow> Grid3D_inv (Grid3D_increment g x y z)"
  unfolding Grid3D_increment_def Let_def by (rule Grid3D_write_inv)

lemma grid222_new: "Grid3D_new 2 2 2 (Some (Num 0)) = Inr grid222"
  by (simp add: Grid3D_new_def new_filled_def max_length_def grid222_def)

lemma grid231_new: "Grid3D_new 2 3 1 (Some (Num 0)) = Inr grid231"
  by (simp add: Grid3D_new_def new_filled_def max_length_def grid231_def)

lemma grid121_new: "Grid3D_new 1 2 1 (Some (Num 0)) = Inr grid121"
  by (simp add: Grid3D_new_def new_filled_def max_length_def grid121_def)

lemma Grid3D_get_address: "Grid3D_get g x y z = arr_read (data3 g) (linear_address g x y z)"
  by (simp add: Grid3D_get_def linear_address_def)

lemma Grid3D_set_address:
  "data3 (Grid3D_set g x y z v) = arr_write (data3 g) (linear_address g x y z) v"
  by (simp add: Grid3D_set_def linear_address_def)

text \<open>
  C8, as stated, fails: on a zero-filled 2 by 2 by 2 grid, \<open>increment(1, 1, 0)\<close> leaves
  the slot at \<open>x + y * height = 3\<close> at 0 and increments slot 0.
\<close>

theorem Grid3D_increment_counterexample:
  "Grid3D_new 2 2 2 (Some (Num 0)) = Inr grid222 \<and>
   arr_read (data3 (Grid3D_increment grid222 1 1 0)) (1 + 1 * height3 grid222) = Some (Num 0) \<and>
   arr_read (data3 (Grid3D_increment grid222 1 1 0)) 0 = Some (Num 1)"
  by (simp add: grid222_new)
    (simp add: Grid3D_increment_def comma_def arr_read_write, simp add: grid222_def arr_read_def is_index_def max_length_def)

text \<open>
  C8, amended: the comma expression yields its right operand, so \<open>increment(x, y, z)\<close>
  increments the store at index \<open>z * (height * width)\<close>, the cell of \<open>get(0, 0, z)\<close>,
  whatever \<open>x\<close> and \<open>y\<close> are, and changes nothing else; \<open>get\<close> and \<open>set\<close> address
  \<open>x + y * height + z * (height * width)\<close>.
\<close>

theorem Grid3D_increment_address:
  assumes "Grid3D_inv g"
  shows "arr_read (data3 (Grid3D_increment g x y z)) (z * (height3 g * width3 g)) =
      Some (js_incr (arr_read (data3 g) (z * (height3 g * width3 g)))) \<and>
    (\<forall>i. i \<noteq> z * (height3 g * width3 g) \<longrightarrow>
      arr_read (data3 (Grid3D_increment g x y z)) i = arr_read (data3 g) i) \<and>
    Grid3D_get (Grid3D_increment g x y z) 0 0 z = Some (js_incr (Grid3D_get g 0 0 z)) \<and>
    Grid3D_get g x y z = arr_read (data3 g) (x + y * height3 g + z * (height3 g * width3 g)) \<and>
    data3 (Grid3D_set g x y z v) =
      arr_write (data3 g) (x + y * height3 g + z * (height3 g * width3 g)) v"
proof -
  have m: "yMod g = height3 g" "zMod g = height3 g * width3 g"
    using assms unfolding Grid3D_inv_def by blast+
  have inc: "data3 (Grid3D_increment g x y z) =
      arr_write (data3 g) (z * (height3 g * width3 g))
        (Some (js_incr (arr_read (data3 g) (z * (height3 g * width3 g)))))"
    by (simp add: Grid3D_increment_def comma_def m Let_def)
  have y: "yMod (Grid3D_increment g x y z) = yMod g" "zMod (Grid3D_increment g x y z) = zMod g"
    by (simp_all add: Grid3D_increment_def Let_def)
  show ?thesis
    by (simp add: inc arr_read_write Grid3D_get_def Grid3D_set_def y m)
qed

theorem Grid3D_increment_address_witness:
  "Grid3D_inv grid222 \<and>
   Grid3D_get (Grid3D_increment grid222 1 1 1) 0 0 1 = Some (Num 1) \<and>
   arr_read (data3 (Grid3D_increment grid222 1 1 1)) 7 = arr_read (data3 grid222) 7"
proof -
  have i: "Grid3D_inv grid222" using grid222_new by (rule Grid3D_new_inv)
  have e: "(7::int) \<noteq> 1 * (height3 grid222 * width3 grid222)"
    by (simp add: grid222_def)
  have g: "Grid3D_get grid222 0 0 1 = Some (Num 0)"
    by (simp add: Grid3D_get_def arr_read_def is_index_def max_length_def grid222_def)
  from Grid3D_increment_address[OF i, of 1 1 1] e g i show ?thesis
    by simp
qed

text \<open>
  C10, as stated, fails: in a grid of height 1 and width 2 no two in-range coordinates
  share an address.
\<close>

theorem Grid3D_address_counterexample:
  "Grid3D_new 1 2 1 (Some (Num 0)) = Inr grid121 \<and> height3 grid121 < width3 grid121 \<and>
   \<not> (\<exists>x y z x' y' z'. in_box grid121 x y z \<and> in_box grid121 x' y' z' \<and>
        (x, y, z) \<noteq> (x', y', z') \<and>
        linear_address grid121 x y z = linear_address grid121 x' y' z')"
proof -
  have "x = x' \<and> y = y' \<and> z = z'"
    if "in_box grid121 x y z" "in_box grid121 x' y' z'"
      "linear_address grid121 x y z = linear_address grid121 x' y' z'" for x y z x' y' z'
    using that by (simp add: in_box_def linear_address_def grid121_def)
  then show ?thesis
    using grid121_new by (auto simp: grid121_def)
qed

text \<open>
  C10, amended: in every cuboid grid with \<open>width > height\<close> and \<open>height\<close> at least 2, the
  distinct in-range coordinates \<open>(0, 1, 0)\<close> and \<open>(height, 0, 0)\<close> have the same address,
  and \<open>set\<close> at the first makes \<open>get\<close> at the second return the value set; with height 2,
  width 3 and depth 1 these are \<open>(0, 1, 0)\<close> and \<open>(2, 0, 0)\<close>.
\<close>

theorem Grid3D_address_clash:
  assumes "Grid3D_inv g" "2 \<le> height3 g" "height3 g < width3 g" "1 \<le> depth3 g"
  shows "in_box g 0 1 0 \<and> in_box g (height3 g) 0 0 \<and>
    (0, 1, 0) \<noteq> (height3 g, 0, 0) \<and>
    linear_address g 0 1 0 = linear_address g (height3 g) 0 0 \<and>
    Grid3D_get (Grid3D_set g 0 1 0 v) (height3 g) 0 0 = v"
proof -
  have m: "yMod g = height3 g"
    using assms(1) unfolding Grid3D_inv_def by blast
  have a: "linear_address g 0 1 0 = linear_address g (height3 g) 0 0"
    by (simp add: linear_address_def m)
  have b: "in_box g 0 1 0" "in_box g (height3 g) 0 0"
    using assms(2-4) by (simp_all add: in_box_def)
  have "Grid3D_get (Grid3D_set g 0 1 0 v) (height3 g) 0 0 = v"
    by (simp add: Grid3D_get_def Grid3D_set_def arr_read_write m)
  with a b assms(2) show ?thesis by simp
qed

theorem Grid3D_address_clash_witness:
  "Grid3D_inv grid231 \<and> 2 \<le> height3 grid231 \<and> height3 grid231 < width3 grid231 \<and>
   1 \<le> depth3 grid231 \<and> in_box grid231 0 1 0 \<and> in_box grid231 2 0 0 \<and>
   linear_address grid231 0 1 0 = linear_address grid231 2 0 0 \<and>
   Grid3D_get (Grid3D_set grid231 0 1 0 (Some (Num 9))) 2 0 0 = Some (Num 9)"
proof -
  have i: "Grid3D_inv grid231" using grid231_new by (rule Grid3D_new_inv)
  have h: "2 \<le> height3 grid231" "height3 grid231 < width3 grid231" "1 \<le> depth3 grid231"
    and e: "height3 grid231 = 2"
    by (simp_all add: grid231_def)
  from Grid3D_address_clash[OF i h, of "Some (Num 9)"] i h show ?thesis
    unfolding e by simp
qed

end
